theory Spec2Isabelle
  imports Complex_Main "HOL-Library.Char_ord" "HOL-Library.List_Lexorder" "HOL-Library.AList" "HOL-Library.Sublist"
begin

section \<open>Python values\<close>

text \<open>
  A Python \<open>str\<close> is modelled as a \<open>string\<close>: a list of characters whose codes are the
  code points 0..255, compared by code point and then lexicographically, as Python
  compares strings. A \<open>float\<close> is its exact rational value, or one of the three special
  values that \<open>json.load\<close> also accepts (\<open>NaN\<close>, \<open>Infinity\<close>, \<open>-Infinity\<close>).
  The value that \<open>json.load\<close> returns is a \<open>json\<close>; a \<open>dict\<close> is an association list
  in insertion order.
\<close>

datatype pyfloat = FNaN | FInf bool | FFin rat

datatype json =
    JNull
  | JBool bool
  | JInt int
  | JFloat pyfloat
  | JStr string
  | JArr "json list"
  | JObj "(string \<times> json) list"

datatype error =
    ValueError string
  | KeyError string
  | TypeError string
  | FileNotFoundError string
  | FileExistsError string
  | NotADirectoryError string
  | IsADirectoryError string
  | CalledProcessError int "string list"
  | NotModelled string

text \<open>\<open>type(payload).__name__\<close> for the values \<open>json.load\<close> can return.\<close>

fun type_name :: "json \<Rightarrow> string" where
  "type_name JNull = ''NoneType''"
| "type_name (JBool b) = ''bool''"
| "type_name (JInt i) = ''int''"
| "type_name (JFloat f) = ''float''"
| "type_name (JStr s) = ''str''"
| "type_name (JArr xs) = ''list''"
| "type_name (JObj kvs) = ''dict''"

section \<open>json_summary.py: the document loader\<close>

text \<open>
  \<open>_load_json_documents(json_path)\<close>. Opening the file and parsing it are the work of
  the standard library: \<open>payload\<close> is the value \<open>json.load\<close> returned, \<open>json_path\<close> the
  text of the path, which the error message quotes.
\<close>

fun load_json_documents :: "string \<Rightarrow> json \<Rightarrow> error + json list" where
  "load_json_documents json_path (JArr xs) = Inr xs"
| "load_json_documents json_path (JObj kvs) = Inr [JObj kvs]"
| "load_json_documents json_path payload =
     Inl (ValueError (''Expected a dictionary or list of dictionaries in '' @ json_path @
                      '', got '' @ type_name payload @ '' instead.''))"


fun is_dict :: "json \<Rightarrow> bool" where
  "is_dict (JObj kvs) = True"
| "is_dict v = False"

section \<open>metadata_dump.py: the command builder\<close>

text \<open>
  \<open>str.strip()\<close> removes the white space of both ends and \<open>str.lower()\<close> maps every
  character to its lowercase form. For the code points 0..255 the white space characters
  are 9..13, 28..32, 133 and 160, and the letters with a lowercase form are A..Z and
  the Latin-1 capitals 192..222 (215, the multiplication sign, apart), each 32 below its
  lowercase form.
\<close>

definition isspace :: "char \<Rightarrow> bool" where
  "isspace c = (let n = (of_char c :: nat) in
     (9 \<le> n \<and> n \<le> 13) \<or> (28 \<le> n \<and> n \<le> 32) \<or> n = 133 \<or> n = 160)"

definition strip :: "string \<Rightarrow> string" where
  "strip s = rev (dropWhile isspace (rev (dropWhile isspace s)))"

definition lower_char :: "char \<Rightarrow> char" where
  "lower_char c = (let n = (of_char c :: nat) in
     if (65 \<le> n \<and> n \<le> 90) \<or> (192 \<le> n \<and> n \<le> 222 \<and> n \<noteq> 215)
     then char_of (n + 32) else c)"

definition lower :: "string \<Rightarrow> string" where
  "lower s = map lower_char s"

text \<open>\<open>ext.startswith(".")\<close>\<close>

fun startswith_dot :: "string \<Rightarrow> bool" where
  "startswith_dot (c # cs) = (c = CHR ''.'')"
| "startswith_dot [] = False"

text \<open>
  \<open>normalize_extensions\<close>: the \<open>for\<close> loop with its accumulator \<open>normalized\<close>, then
  the check that raises \<open>ValueError\<close> on an empty result. \<open>ext[1:]\<close> drops one character.
\<close>

fun normalize_loop :: "string list \<Rightarrow> string list \<Rightarrow> string list" where
  "normalize_loop [] normalized = normalized"
| "normalize_loop (ext # rest) normalized =
     (let ext1 = lower (strip ext);
          ext2 = (if startswith_dot ext1 then drop 1 ext1 else ext1)
      in if ext2 = [] then normalize_loop rest normalized
         else normalize_loop rest (normalized @ [ext2]))"

definition normalize_extensions :: "string list \<Rightarrow> error + string list" where
  "normalize_extensions extensions =
     (let normalized = normalize_loop extensions []
      in if normalized = [] then Inl (ValueError ''At least one file extension must be provided.'')
         else Inr normalized)"

text \<open>The decimal text of an integer, as the f-string \<open>f"RequestAll={request_all}"\<close> formats it.\<close>

fun digits :: "nat \<Rightarrow> string" where
  "digits n = (if n < 10 then [char_of (48 + n)] else digits (n div 10) @ [char_of (48 + n mod 10)])"

definition str_int :: "int \<Rightarrow> string" where
  "str_int i = (if i < 0 then CHR ''-'' # digits (nat (- i)) else digits (nat i))"

text \<open>The loop \<open>for ext in normalized_exts: cmd.extend(["-ext", ext])\<close>.\<close>

fun extend_exts :: "string list \<Rightarrow> string list \<Rightarrow> string list" where
  "extend_exts [] cmd = cmd"
| "extend_exts (ext # rest) cmd = extend_exts rest (cmd @ [''-ext'', ext])"


text \<open>
  A \<open>pathlib.Path\<close>: \<open>as_str\<close> is the text \<open>str(path)\<close> gives, \<open>location\<close> the place in the
  file system that the path names, as the list of its components below the root.
\<close>

record pypath =
  as_str :: string
  location :: "string list"

definition build_exiftool_command ::
  "pypath \<Rightarrow> string list \<Rightarrow> int \<Rightarrow> bool \<Rightarrow> bool \<Rightarrow> string \<Rightarrow> error + string list" where
  "build_exiftool_command root_dir extensions request_all largefile_support recursive exiftool_cmd =
     (case normalize_extensions extensions of
        Inl err \<Rightarrow> Inl err
      | Inr normalized_exts \<Rightarrow>
          (let cmd0 = [exiftool_cmd, ''-api'', ''RequestAll='' @ str_int request_all];
               cmd1 = (if largefile_support then cmd0 @ [''-api'', ''largefilesupport=1''] else cmd0);
               cmd2 = cmd1 @ [''-G1'', ''-csv''];
               cmd3 = (if recursive then cmd2 @ [''-r''] else cmd2);
               cmd4 = extend_exts normalized_exts cmd3
           in Inr (cmd4 @ [as_str root_dir])))"

text \<open>
  What the loop does to one extension, and the list it leaves: the closed forms that
  the properties below are stated with.
\<close>

definition normalize_one :: "string \<Rightarrow> string" where
  "normalize_one ext =
     (let ext1 = lower (strip ext) in if startswith_dot ext1 then drop 1 ext1 else ext1)"

definition normalized_of :: "string list \<Rightarrow> string list" where
  "normalized_of extensions = filter (\<lambda>ext. ext \<noteq> []) (map normalize_one extensions)"


section \<open>metadata_dump.py: the dump runner\<close>

text \<open>
  The file system is a map from absolute paths (the list of the components below the
  root) to what is there: a directory, or a regular file with its contents. Symbolic
  links, permissions and the working directory are not modelled.
\<close>

datatype node = Dir | File string

type_synonym fsys = "string list \<rightharpoonup> node"

text \<open>
  What a run can change: the file system, the lines printed, and the commands that
  were run as child processes.
\<close>

record world =
  fs :: fsys
  printed :: "string list"
  spawned :: "string list list"

text \<open>
  What a run reads and cannot change: \<open>shutil.which\<close> (the search path), and the external
  tool, which for a command and the file system it sees gives the text written to its
  standard output and its exit status.
\<close>

record env =
  which :: "string \<Rightarrow> string option"
  child :: "string list \<Rightarrow> fsys \<Rightarrow> string \<times> int"

text \<open>The text of an absolute path, as \<open>str\<close> of a resolved path gives it.\<close>

fun render :: "string list \<Rightarrow> string" where
  "render [] = ''/''"
| "render [c] = CHR ''/'' # c"
| "render (c # cs) = CHR ''/'' # c @ render cs"

text \<open>
  \<open>Path.resolve()\<close>, \<open>Path.parent\<close>, \<open>Path.is_dir()\<close> and \<open>Path.exists()\<close>. The parent of the
  root is the root.
\<close>

definition resolve :: "pypath \<Rightarrow> pypath" where
  "resolve p = \<lparr>as_str = render (location p), location = location p\<rparr>"

definition parent :: "pypath \<Rightarrow> pypath" where
  "parent p = \<lparr>as_str = render (butlast (location p)), location = butlast (location p)\<rparr>"

definition is_dir :: "fsys \<Rightarrow> pypath \<Rightarrow> bool" where
  "is_dir f p = (f (location p) = Some Dir)"

definition exists :: "fsys \<Rightarrow> pypath \<Rightarrow> bool" where
  "exists f p = (f (location p) \<noteq> None)"

text \<open>
  \<open>os.mkdir\<close>: the system resolves the path from the root and fails at the first
  ancestor that is missing (\<open>FileNotFoundError\<close>) or is a regular file
  (\<open>NotADirectoryError\<close>); it fails with \<open>FileExistsError\<close> when the path itself exists.
  The message of an error that the system raises is modelled by the path it names.
\<close>

fun walk :: "fsys \<Rightarrow> string list \<Rightarrow> string list \<Rightarrow> error option" where
  "walk f seen [] = None"
| "walk f seen (c # cs) =
     (case f seen of
        Some Dir \<Rightarrow> walk f (seen @ [c]) cs
      | Some (File x) \<Rightarrow> Some (NotADirectoryError (render (seen @ c # cs)))
      | None \<Rightarrow> Some (FileNotFoundError (render (seen @ c # cs))))"

definition os_mkdir :: "fsys \<Rightarrow> string list \<Rightarrow> error + fsys" where
  "os_mkdir f p =
     (case walk f [] p of
        Some err \<Rightarrow> Inl err
      | None \<Rightarrow> if f p \<noteq> None then Inl (FileExistsError (render p)) else Inr (f(p \<mapsto> Dir)))"

text \<open>
  \<open>Path.mkdir(parents=True, exist_ok=True)\<close> as pathlib writes it: try \<open>os.mkdir\<close>; on
  \<open>FileNotFoundError\<close> make the parent the same way and then the directory itself
  (\<open>mkdir_plain\<close>, the call with \<open>parents=False\<close>); any other \<open>OSError\<close> is ignored when
  the path is a directory and raised again otherwise.
\<close>

fun is_FileNotFoundError :: "error \<Rightarrow> bool" where
  "is_FileNotFoundError (FileNotFoundError m) = True"
| "is_FileNotFoundError err = False"

definition mkdir_plain :: "fsys \<Rightarrow> string list \<Rightarrow> error option \<times> fsys" where
  "mkdir_plain f p =
     (case os_mkdir f p of
        Inr f' \<Rightarrow> (None, f')
      | Inl err \<Rightarrow>
          if is_FileNotFoundError err then (Some err, f)
          else if f p = Some Dir then (None, f) else (Some err, f))"

function mkdir_parents :: "fsys \<Rightarrow> string list \<Rightarrow> error option \<times> fsys" where
  "mkdir_parents f p =
     (case os_mkdir f p of
        Inr f' \<Rightarrow> (None, f')
      | Inl err \<Rightarrow>
          if is_FileNotFoundError err then
            (if p = [] then (Some err, f)
             else (case mkdir_parents f (butlast p) of
                     (Some err', f1) \<Rightarrow> (Some err', f1)
                   | (None, f1) \<Rightarrow> mkdir_plain f1 p))
          else if f p = Some Dir then (None, f) else (Some err, f))"
  by pat_completeness auto
termination
  by (relation "measure (\<lambda>(f, p). length p)") auto

declare mkdir_parents.simps [simp del]

text \<open>\<open>Path.unlink()\<close>, \<open>Path.open("w")\<close> and \<open>" ".join(cmd)\<close>.\<close>

definition unlink :: "fsys \<Rightarrow> pypath \<Rightarrow> error + fsys" where
  "unlink f p =
     (case f (location p) of
        None \<Rightarrow> Inl (FileNotFoundError (as_str p))
      | Some Dir \<Rightarrow> Inl (IsADirectoryError (as_str p))
      | Some (File x) \<Rightarrow> Inr (f(location p := None)))"

definition open_w :: "fsys \<Rightarrow> pypath \<Rightarrow> error + fsys" where
  "open_w f p =
     (case walk f [] (location p) of
        Some err \<Rightarrow> Inl err
      | None \<Rightarrow>
          (case f (location p) of
             Some Dir \<Rightarrow> Inl (IsADirectoryError (as_str p))
           | _ \<Rightarrow> Inr (f(location p \<mapsto> File []))))"

fun join :: "string \<Rightarrow> string list \<Rightarrow> string" where
  "join sep [] = []"
| "join sep [x] = x"
| "join sep (x # xs) = x @ sep @ join sep xs"

text \<open>
  \<open>run_exiftool_metadata_dump\<close>, statement by statement. The result is the exception
  raised, or \<open>()\<close>, with the world as the run left it.
\<close>

definition run_exiftool_metadata_dump ::
  "env \<Rightarrow> pypath \<Rightarrow> pypath \<Rightarrow> string list \<Rightarrow> int \<Rightarrow> bool \<Rightarrow> bool \<Rightarrow> string \<Rightarrow> bool \<Rightarrow>
   world \<Rightarrow> (error + unit) \<times> world" where
  "run_exiftool_metadata_dump e root_dir output_csv extensions request_all largefile_support
       recursive exiftool_cmd force w =
     (if \<not> is_dir (fs w) root_dir
      then (Inl (FileNotFoundError (''Root directory does not exist: '' @ as_str root_dir)), w)
      else
        (let resolved_output = resolve output_csv in
         (case mkdir_parents (fs w) (location (parent resolved_output)) of
            (Some err, f1) \<Rightarrow> (Inl err, w\<lparr>fs := f1\<rparr>)
          | (None, f1) \<Rightarrow>
              (let w1 = w\<lparr>fs := f1\<rparr> in
               if which e exiftool_cmd = None
               then (Inl (FileNotFoundError (''ExifTool executable '' @ [CHR 0x27] @ exiftool_cmd @
                            [CHR 0x27] @ '' could not be found on PATH.'')), w1)
               else
                 (case (if exists f1 resolved_output
                        then (if \<not> force
                              then Inl (FileExistsError (''Output file already exists: '' @
                                          as_str resolved_output @ ''. Use --force to overwrite.''))
                              else unlink f1 resolved_output)
                        else Inr f1) of
                    Inl err \<Rightarrow> (Inl err, w1)
                  | Inr f2 \<Rightarrow>
                      (let w2 = w1\<lparr>fs := f2\<rparr> in
                       (case build_exiftool_command root_dir extensions request_all
                               largefile_support recursive exiftool_cmd of
                          Inl err \<Rightarrow> (Inl err, w2)
                        | Inr cmd \<Rightarrow>
                            (let w3 = w2\<lparr>printed := printed w2 @
                                        [''Running ExifTool... this can take a while on large trees.'',
                                         ''Command: '' @ join '' '' cmd]\<rparr> in
                             (case open_w (fs w3) resolved_output of
                                Inl err \<Rightarrow> (Inl err, w3)
                              | Inr f3 \<Rightarrow>
                                  (let (out, returncode) = child e cmd f3;
                                       w4 = w3\<lparr>fs := f3(location resolved_output \<mapsto> File out),
                                               spawned := spawned w3 @ [cmd]\<rparr> in
                                   if returncode \<noteq> 0
                                   then (Inl (CalledProcessError returncode cmd), w4)
                                   else (Inr (), w4\<lparr>printed := printed w4 @
                                           [''Done. Metadata written to: '' @
                                            as_str resolved_output]\<rparr>)))))))))))"

text \<open>
  The destination's parent and all its ancestors are directories; none of them is a
  regular file.
\<close>

definition parents_are_dirs :: "fsys \<Rightarrow> string list \<Rightarrow> bool" where
  "parents_are_dirs f p = list_all (\<lambda>q. f q = Some Dir) (prefixes (butlast p))"

definition no_file_above :: "fsys \<Rightarrow> string list \<Rightarrow> bool" where
  "no_file_above f p = list_all (\<lambda>q. f q = None \<or> f q = Some Dir) (prefixes (butlast p))"

text \<open>A tool that writes nothing and exits with status zero, for the examples.\<close>

definition silent_child :: "string list \<Rightarrow> fsys \<Rightarrow> string \<times> int" where
  "silent_child cmd f = ([], 0)"

section \<open>json_summary.py: the flattener\<close>

text \<open>
  \<open>pandas.json_normalize(records, sep=".")\<close> is the work of pandas. With no other option
  given it takes its short path: every record goes through \<open>_simple_json_normalize\<close>, and
  the list of the flat dictionaries is handed to the \<open>DataFrame\<close> constructor. The
  definitions follow pandas' \<open>_normalise_json\<close>, \<open>_normalise_json_ordered\<close> and
  \<open>_simple_json_normalize\<close>: only dictionaries are flattened, a list stays a value; a key
  path is built as \<open>key_string + separator + key\<close>, and the separator is taken off the
  front again while \<open>key_string\<close> is empty. A Python \<open>dict\<close> keeps insertion order, and
  assigning to a key that is present keeps its place: \<open>AList.update\<close>.
\<close>

definition removeprefix :: "string \<Rightarrow> string \<Rightarrow> string" where
  "removeprefix pre s = (if prefix pre s then drop (length pre) s else s)"

fun normalise_json :: "json \<Rightarrow> string \<Rightarrow> (string \<times> json) list \<Rightarrow> string \<Rightarrow> (string \<times> json) list"
  and normalise_items ::
    "(string \<times> json) list \<Rightarrow> string \<Rightarrow> (string \<times> json) list \<Rightarrow> string \<Rightarrow> (string \<times> json) list"
where
  "normalise_json (JObj kvs) key_string normalized_dict separator =
     normalise_items kvs key_string normalized_dict separator"
| "normalise_json JNull key_string normalized_dict separator =
     AList.update key_string JNull normalized_dict"
| "normalise_json (JBool b) key_string normalized_dict separator =
     AList.update key_string (JBool b) normalized_dict"
| "normalise_json (JInt i) key_string normalized_dict separator =
     AList.update key_string (JInt i) normalized_dict"
| "normalise_json (JFloat x) key_string normalized_dict separator =
     AList.update key_string (JFloat x) normalized_dict"
| "normalise_json (JStr s) key_string normalized_dict separator =
     AList.update key_string (JStr s) normalized_dict"
| "normalise_json (JArr xs) key_string normalized_dict separator =
     AList.update key_string (JArr xs) normalized_dict"
| "normalise_items [] key_string normalized_dict separator = normalized_dict"
| "normalise_items ((key, value) # rest) key_string normalized_dict separator =
     (let new_key0 = key_string @ separator @ key;
          new_key = (if key_string = [] then removeprefix separator new_key0 else new_key0)
      in normalise_items rest key_string
           (normalise_json value new_key normalized_dict separator) separator)"

text \<open>\<open>{**top_dict_, **nested_dict_}\<close>\<close>

definition dict_merge :: "(string \<times> json) list \<Rightarrow> (string \<times> json) list \<Rightarrow> (string \<times> json) list" where
  "dict_merge d1 d2 = fold (\<lambda>(k, v) d. AList.update k v d) d2 d1"

definition normalise_json_ordered :: "(string \<times> json) list \<Rightarrow> string \<Rightarrow> (string \<times> json) list" where
  "normalise_json_ordered data separator =
     (let top_dict = filter (\<lambda>(k, v). \<not> is_dict v) data;
          nested_dict = normalise_json (JObj (filter (\<lambda>(k, v). is_dict v) data)) [] [] separator
      in dict_merge top_dict nested_dict)"

text \<open>
  What \<open>_simple_json_normalize\<close> returns: a flat dictionary for a dictionary, a list for a
  list, the empty dictionary for any other value.
\<close>

datatype normalised = NDict "(string \<times> json) list" | NList "normalised list"

fun simple_json_normalize :: "json \<Rightarrow> string \<Rightarrow> normalised" where
  "simple_json_normalize (JObj kvs) sep = NDict (normalise_json_ordered kvs sep)"
| "simple_json_normalize (JArr xs) sep = NList (map (\<lambda>row. simple_json_normalize row sep) xs)"
| "simple_json_normalize v sep = NDict []"

text \<open>
  A \<open>DataFrame\<close>: the row labels, the column names, and the cells row by row, each row as
  long as the column list. A cell that was never set is \<open>None\<close> (pandas shows \<open>NaN\<close>). The
  conversion of a column to a numeric dtype is not modelled: a cell holds the value
  that the record held.
\<close>

record frame =
  index :: "nat list"
  columns :: "string list"
  cells :: "json option list list"

text \<open>
  The constructor on a list of dictionaries: the columns are the keys in the order in
  which they are first seen, the rows are numbered from zero. A list of lists makes a
  table of another shape, which this model leaves out.
\<close>

fun union_keys :: "(string \<times> json) list list \<Rightarrow> string list \<Rightarrow> string list" where
  "union_keys [] cols = cols"
| "union_keys (d # ds) cols =
     union_keys ds (fold (\<lambda>k cs. if k \<in> set cs then cs else cs @ [k]) (map fst d) cols)"

fun dicts_of :: "normalised list \<Rightarrow> (string \<times> json) list list option" where
  "dicts_of [] = Some []"
| "dicts_of (NDict d # rest) = map_option ((#) d) (dicts_of rest)"
| "dicts_of (NList xs # rest) = None"

definition DataFrame :: "normalised list \<Rightarrow> error + frame" where
  "DataFrame data =
     (case dicts_of data of
        None \<Rightarrow> Inl (NotModelled ''DataFrame from nested lists'')
      | Some dicts \<Rightarrow>
          (let cols = union_keys dicts []
           in Inr \<lparr>index = [0..<length dicts], columns = cols,
                   cells = map (\<lambda>d. map (map_of d) cols) dicts\<rparr>))"

text \<open>\<open>json_normalize\<close> returns the empty table for the empty list.\<close>

definition json_normalize :: "json list \<Rightarrow> string \<Rightarrow> error + frame" where
  "json_normalize data sep =
     (if data = [] then Inr \<lparr>index = [], columns = [], cells = []\<rparr>
      else DataFrame (map (\<lambda>row. simple_json_normalize row sep) data))"

text \<open>\<open>frame.reindex(new_cols, axis=1)\<close>: the columns in the new order, each with its cells.\<close>

definition cell_at :: "string list \<Rightarrow> json option list \<Rightarrow> string \<Rightarrow> json option" where
  "cell_at cols row c = (case map_of (zip cols row) c of None \<Rightarrow> None | Some v \<Rightarrow> v)"

definition reindex_columns :: "frame \<Rightarrow> string list \<Rightarrow> frame" where
  "reindex_columns fr new_cols =
     fr\<lparr>columns := new_cols, cells := map (\<lambda>row. map (cell_at (columns fr) row) new_cols) (cells fr)\<rparr>"

text \<open>
  \<open>load_metadata_frame\<close>. \<open>sorted(frame.columns)\<close> sorts the names as Python compares
  strings: code point by code point, a proper prefix first.
\<close>

definition load_metadata_frame :: "string \<Rightarrow> json \<Rightarrow> error + frame" where
  "load_metadata_frame json_path payload =
     (case load_json_documents json_path payload of
        Inl err \<Rightarrow> Inl err
      | Inr records \<Rightarrow>
          (case json_normalize records ''.'' of
             Inl err \<Rightarrow> Inl err
           | Inr fr \<Rightarrow> Inr (reindex_columns fr (sort (columns fr)))))"

section \<open>The columns a record should give\<close>







section \<open>json_summary.py: the summarizer\<close>

text \<open>
  The rows of the summary table and of the merged table share the column \<open>Tag\<close>. A
  statistic is \<open>None\<close> where pandas holds \<open>NaN\<close>. A table of typed rows is the list of
  its rows, each with its index label.
\<close>

record tagged =
  Tag :: string

record summary_row = tagged +
  NonNullCount :: "int option"
  UniqueValues :: "int option"

record merged_row = tagged +
  NonNullCount_old :: "int option"
  UniqueValues_old :: "int option"
  NonNullCount_new :: "int option"
  UniqueValues_new :: "int option"

type_synonym 'r table = "(nat \<times> 'r) list"

text \<open>\<open>reset_index(drop=True)\<close> and \<open>sort_values("Tag")\<close>.\<close>

definition reset_index :: "'r table \<Rightarrow> 'r table" where
  "reset_index t = zip [0..<length t] (map snd t)"

definition sort_values_Tag :: "('a tagged_scheme) table \<Rightarrow> ('a tagged_scheme) table" where
  "sort_values_Tag t = sort_key (\<lambda>(i, r). Tag r) t"

text \<open>
  \<open>Series.notna()\<close>: a cell that was never set, a \<open>None\<close> and a \<open>NaN\<close> are missing.
\<close>

fun notna :: "json option \<Rightarrow> bool" where
  "notna None = False"
| "notna (Some JNull) = False"
| "notna (Some (JFloat FNaN)) = False"
| "notna (Some v) = True"

text \<open>
  \<open>Series.nunique(dropna=True)\<close> counts the distinct values that are not missing, with a
  hash table: two values are the same when Python finds them equal (\<open>True == 1 == 1.0\<close>),
  and a list or a dictionary cannot be hashed, which raises \<open>TypeError\<close>.
\<close>

datatype pykey = KNone | KNaN | KNum rat | KInf bool | KStr string

fun hash_key :: "json \<Rightarrow> error + pykey" where
  "hash_key JNull = Inr KNone"
| "hash_key (JBool b) = Inr (KNum (if b then 1 else 0))"
| "hash_key (JInt i) = Inr (KNum (of_int i))"
| "hash_key (JFloat FNaN) = Inr KNaN"
| "hash_key (JFloat (FFin q)) = Inr (KNum q)"
| "hash_key (JFloat (FInf s)) = Inr (KInf s)"
| "hash_key (JStr s) = Inr (KStr s)"
| "hash_key (JArr xs) = Inl (TypeError ''unhashable type: list'')"
| "hash_key (JObj kvs) = Inl (TypeError ''unhashable type: dict'')"

fun unique_keys :: "json option list \<Rightarrow> pykey list \<Rightarrow> error + pykey list" where
  "unique_keys [] seen = Inr seen"
| "unique_keys (None # cs) seen = unique_keys cs seen"
| "unique_keys (Some v # cs) seen =
     (if notna (Some v) then
        (case hash_key v of
           Inl err \<Rightarrow> Inl err
         | Inr k \<Rightarrow> unique_keys cs (if k \<in> set seen then seen else seen @ [k]))
      else unique_keys cs seen)"

definition nunique :: "json option list \<Rightarrow> error + int" where
  "nunique series =
     (case unique_keys series [] of Inl err \<Rightarrow> Inl err | Inr ks \<Rightarrow> Inr (int (length ks)))"

text \<open>\<open>frame[column]\<close>, a series when the column name stands once among the columns.\<close>

definition column_series :: "frame \<Rightarrow> string \<Rightarrow> json option list" where
  "column_series fr column = map (\<lambda>row. cell_at (columns fr) row column) (cells fr)"

text \<open>
  \<open>summarize_columns\<close>: the loop over \<open>frame.columns\<close> with its accumulator
  \<open>summary_rows\<close>; then the table of the rows, sorted by \<open>Tag\<close> and renumbered. A column
  name that stands more than once selects a table, not a series, and \<open>int\<close> fails on its
  counts; with no column at all the table of the rows has no column \<open>Tag\<close> to sort by.
\<close>

fun summary_loop :: "frame \<Rightarrow> string list \<Rightarrow> summary_row list \<Rightarrow> error + summary_row list" where
  "summary_loop fr [] summary_rows = Inr summary_rows"
| "summary_loop fr (column # rest) summary_rows =
     (if count_list (columns fr) column \<noteq> 1
      then Inl (TypeError ''cannot convert the series to int'')
      else
        (let series = column_series fr column
         in (case nunique series of
               Inl err \<Rightarrow> Inl err
             | Inr u \<Rightarrow>
                 summary_loop fr rest
                   (summary_rows @
                     [\<lparr>Tag = column,
                       NonNullCount = Some (int (length (filter notna series))),
                       UniqueValues = Some u\<rparr>]))))"

definition summarize_columns :: "frame \<Rightarrow> error + summary_row table" where
  "summarize_columns fr =
     (case summary_loop fr (columns fr) [] of
        Inl err \<Rightarrow> Inl err
      | Inr summary_rows \<Rightarrow>
          if summary_rows = [] then Inl (KeyError ''Tag'')
          else Inr (reset_index (sort_values_Tag (zip [0..<length summary_rows] summary_rows))))"

section \<open>json_summary.py: the differ\<close>

text \<open>
  \<open>existing.merge(new, on="Tag", how="outer", suffixes=("_old", "_new"))\<close>: the keys of
  both sides in ascending order; for a key on both sides every pairing of its left rows
  with its right rows, for a key on one side its rows with the other side's statistics
  missing. The statistics are integers of any size: the rounding that pandas applies
  when a column with a missing entry is held as \<open>float64\<close> (exact below \<open>2^53\<close>) is not
  modelled.
\<close>

definition merge_key :: "string \<Rightarrow> summary_row list \<Rightarrow> summary_row list \<Rightarrow> merged_row list" where
  "merge_key k ls rs =
     (if rs = [] then
        map (\<lambda>l. \<lparr>Tag = k, NonNullCount_old = NonNullCount l, UniqueValues_old = UniqueValues l,
                    NonNullCount_new = None, UniqueValues_new = None\<rparr>) ls
      else if ls = [] then
        map (\<lambda>r. \<lparr>Tag = k, NonNullCount_old = None, UniqueValues_old = None,
                    NonNullCount_new = NonNullCount r, UniqueValues_new = UniqueValues r\<rparr>) rs
      else
        concat (map (\<lambda>l. map (\<lambda>r.
            \<lparr>Tag = k, NonNullCount_old = NonNullCount l, UniqueValues_old = UniqueValues l,
              NonNullCount_new = NonNullCount r, UniqueValues_new = UniqueValues r\<rparr>) rs) ls))"

definition merge_outer :: "summary_row table \<Rightarrow> summary_row table \<Rightarrow> merged_row table" where
  "merge_outer left right =
     (let ls = map snd left;
          rs = map snd right;
          keys = sort (remdups (map Tag ls @ map Tag rs));
          rows = concat (map (\<lambda>k. merge_key k (filter (\<lambda>l. Tag l = k) ls)
                                              (filter (\<lambda>r. Tag r = k) rs)) keys)
      in zip [0..<length rows] rows)"

text \<open>The comparison \<open>!=\<close> of two cells: a missing value is unequal to everything.\<close>

fun ne :: "int option \<Rightarrow> int option \<Rightarrow> bool" where
  "ne (Some a) (Some b) = (a \<noteq> b)"
| "ne a b = True"

definition compare_summaries :: "summary_row table \<Rightarrow> summary_row table \<Rightarrow> merged_row table" where
  "compare_summaries new existing =
     (let merged = merge_outer existing new;
          mismatched = filter (\<lambda>(i, r). ne (NonNullCount_old r) (NonNullCount_new r) \<or>
                                         ne (UniqueValues_old r) (UniqueValues_new r)) merged
      in reset_index (sort_values_Tag mismatched))"

section \<open>The difference of two summaries, as the specification words it\<close>

text \<open>
  One row for each name of either summary, in ascending order, with the statistics that
  each side holds for the name, or nothing where the side does not have it; the rows
  in which a pair of statistics differs are kept and numbered from zero.
\<close>

definition stat :: "(summary_row \<Rightarrow> int option) \<Rightarrow> summary_row list \<Rightarrow> string \<Rightarrow> int option" where
  "stat f rows t = (case find (\<lambda>r. Tag r = t) rows of None \<Rightarrow> None | Some r \<Rightarrow> f r)"

definition outer_join_row :: "summary_row list \<Rightarrow> summary_row list \<Rightarrow> string \<Rightarrow> merged_row" where
  "outer_join_row olds news t =
     \<lparr>Tag = t, NonNullCount_old = stat NonNullCount olds t, UniqueValues_old = stat UniqueValues olds t,
       NonNullCount_new = stat NonNullCount news t, UniqueValues_new = stat UniqueValues news t\<rparr>"

definition differs :: "merged_row \<Rightarrow> bool" where
  "differs r = (ne (NonNullCount_old r) (NonNullCount_new r) \<or> ne (UniqueValues_old r) (UniqueValues_new r))"

definition summary_diff :: "summary_row table \<Rightarrow> summary_row table \<Rightarrow> merged_row table" where
  "summary_diff new existing =
     (let olds = map snd existing;
          news = map snd new;
          tags = sort (remdups (map Tag olds @ map Tag news));
          differing = filter differs (map (outer_join_row olds news) tags)
      in zip [0..<length differing] differing)"

text \<open>
  A summary row whose two statistics are integers, with no more distinct values than
  values.
\<close>

definition counts_ok :: "summary_row \<Rightarrow> bool" where
  "counts_ok r = (case (NonNullCount r, UniqueValues r) of
      (Some n, Some u) \<Rightarrow> 0 \<le> u \<and> u \<le> n
    | _ \<Rightarrow> False)"

section \<open>Properties of the document loader\<close>



section \<open>Properties of the command builder\<close>

lemma normalize_loop_closed:
  "normalize_loop exts acc = acc @ normalized_of exts"
  by (induction exts arbitrary: acc) (simp_all add: normalized_of_def normalize_one_def Let_def)

lemma extend_exts_closed:
  "extend_exts ns cmd = cmd @ concat (map (\<lambda>ext. [''-ext'', ext]) ns)"
  by (induction ns arbitrary: cmd) simp_all

lemma normalize_extensions_closed:
  "normalize_extensions exts =
     (if normalized_of exts = [] then Inl (ValueError ''At least one file extension must be provided.'')
      else Inr (normalized_of exts))"
  by (simp add: normalize_extensions_def normalize_loop_closed)

lemma lower_eq_Nil [simp]: "lower s = [] \<longleftrightarrow> s = []"
  by (simp add: lower_def)



text \<open>
  C3. Whenever the normalised extension list is not empty, \<open>build_exiftool_command\<close>
  returns exactly: the executable name; \<open>-api RequestAll=n\<close>; \<open>-api largefilesupport=1\<close>
  if and only if the large-file flag is set; \<open>-G1 -csv\<close>; \<open>-r\<close> if and only if the
  recursive flag is set; one \<open>-ext\<close> pair for each normalised extension, in the order of
  the input and with repetitions kept; and the root path last.
\<close>

theorem build_exiftool_command_layout:
  assumes "normalized_of extensions \<noteq> []"
  shows "build_exiftool_command root_dir extensions request_all largefile_support recursive exiftool_cmd =
     Inr ([exiftool_cmd, ''-api'', ''RequestAll='' @ str_int request_all]
          @ (if largefile_support then [''-api'', ''largefilesupport=1''] else [])
          @ [''-G1'', ''-csv'']
          @ (if recursive then [''-r''] else [])
          @ concat (map (\<lambda>ext. [''-ext'', ext]) (normalized_of extensions))
          @ [as_str root_dir])"
  using assms
  by (simp add: build_exiftool_command_def normalize_extensions_closed extend_exts_closed Let_def)


theorem build_exiftool_command_layout_witness:
  "normalized_of [''.PDF'', ''pdf'', '' ''] \<noteq> [] \<and>
   build_exiftool_command \<lparr>as_str = ''evidence'', location = [''home'', ''evidence'']\<rparr>
       [''.PDF'', ''pdf'', '' ''] 3 True False ''exiftool'' =
     Inr [''exiftool'', ''-api'', ''RequestAll=3'', ''-api'', ''largefilesupport=1'',
          ''-G1'', ''-csv'', ''-ext'', ''pdf'', ''-ext'', ''pdf'', ''evidence'']"
proof -
  have n: "normalized_of [''.PDF'', ''pdf'', '' ''] = [''pdf'', ''pdf'']" by code_simp
  have d: "str_int 3 = ''3''" by code_simp
  have h: "normalized_of [''.PDF'', ''pdf'', '' ''] \<noteq> []" by (simp add: n)
  show ?thesis
    using build_exiftool_command_layout [OF h, of "\<lparr>as_str = ''evidence'', location = [''home'', ''evidence'']\<rparr>" 3 True False "''exiftool''"]
    by (simp add: n d)
qed




section \<open>Properties of the dump runner\<close>

lemma walk_None_iff:
  "walk f seen todo = None \<longleftrightarrow> (\<forall>i < length todo. f (seen @ take i todo) = Some Dir)"
proof (induction todo arbitrary: seen)
  case Nil
  then show ?case by simp
next
  case (Cons c cs)
  show ?case
  proof (cases "f seen")
    case None
    then show ?thesis by (auto intro: exI [of _ 0])
  next
    case (Some n)
    show ?thesis
    proof (cases n)
      case Dir
      have "(\<forall>i < length (c # cs). f (seen @ take i (c # cs)) = Some Dir) \<longleftrightarrow>
            (\<forall>i < length cs. f ((seen @ [c]) @ take i cs) = Some Dir)"
        using Some Dir by (auto simp: less_Suc_eq_0_disj)
      then show ?thesis using Some Dir Cons.IH [of "seen @ [c]"] by simp
    next
      case (File x)
      then show ?thesis using Some by (auto intro: exI [of _ 0])
    qed
  qed
qed


lemma prefix_take_iff: "prefix q p \<longleftrightarrow> (\<exists>i \<le> length p. q = take i p)"
proof
  assume "prefix q p"
  then obtain r where "p = q @ r" by (auto simp: prefix_def)
  then have "length q \<le> length p \<and> q = take (length q) p" by simp
  then show "\<exists>i \<le> length p. q = take i p" by blast
next
  assume "\<exists>i \<le> length p. q = take i p"
  then show "prefix q p" by (auto simp: take_is_prefix)
qed

lemma walk_None_prefix:
  "walk f [] p = None \<longleftrightarrow> (\<forall>q. strict_prefix q p \<longrightarrow> f q = Some Dir)"
proof -
  have "(\<forall>q. strict_prefix q p \<longrightarrow> f q = Some Dir) \<longleftrightarrow> (\<forall>i < length p. f (take i p) = Some Dir)"
  proof
    assume h: "\<forall>q. strict_prefix q p \<longrightarrow> f q = Some Dir"
    show "\<forall>i < length p. f (take i p) = Some Dir"
    proof (intro allI impI)
      fix i assume "i < length p"
      then have "strict_prefix (take i p) p"
        by (auto simp: strict_prefix_def take_is_prefix dest: arg_cong [where f = length])
      with h show "f (take i p) = Some Dir" by blast
    qed
  next
    assume h: "\<forall>i < length p. f (take i p) = Some Dir"
    show "\<forall>q. strict_prefix q p \<longrightarrow> f q = Some Dir"
    proof (intro allI impI)
      fix q assume sp: "strict_prefix q p"
      then obtain i where i: "i \<le> length p" "q = take i p"
        by (auto simp: strict_prefix_def prefix_take_iff)
      with sp have "i < length p" by (cases "i = length p") auto
      with h i show "f q = Some Dir" by blast
    qed
  qed
  then show ?thesis by (simp add: walk_None_iff)
qed

lemma walk_Some:
  "walk f seen todo = Some err \<Longrightarrow>
     is_FileNotFoundError err \<or> (\<exists>i < length todo. \<exists>x. f (seen @ take i todo) = Some (File x))"
proof (induction todo arbitrary: seen)
  case Nil
  then show ?case by simp
next
  case (Cons c cs)
  show ?case
  proof (cases "f seen")
    case None
    with Cons.prems show ?thesis by auto
  next
    case (Some n)
    show ?thesis
    proof (cases n)
      case Dir
      with Some Cons.prems have "walk f (seen @ [c]) cs = Some err" by simp
      from Cons.IH [OF this] show ?thesis
      proof
        assume "is_FileNotFoundError err" then show ?thesis ..
      next
        assume "\<exists>i < length cs. \<exists>x. f ((seen @ [c]) @ take i cs) = Some (File x)"
        then obtain i x where "i < length cs" "f ((seen @ [c]) @ take i cs) = Some (File x)" by blast
        then have "Suc i < length (c # cs) \<and> f (seen @ take (Suc i) (c # cs)) = Some (File x)" by simp
        then show ?thesis by blast
      qed
    next
      case (File x)
      with Some have "0 < length (c # cs) \<and> f (seen @ take 0 (c # cs)) = Some (File x)" by simp
      then show ?thesis by blast
    qed
  qed
qed

lemma walk_Some_prefix:
  assumes "walk f [] p = Some err" and "\<forall>q. prefix q p \<longrightarrow> (\<forall>x. f q \<noteq> Some (File x))"
  shows "is_FileNotFoundError err"
proof -
  from walk_Some [OF assms(1)] show ?thesis
  proof
    assume "is_FileNotFoundError err" then show ?thesis .
  next
    assume "\<exists>i < length p. \<exists>x. f ([] @ take i p) = Some (File x)"
    then obtain i x where "f (take i p) = Some (File x)" by auto
    moreover have "prefix (take i p) p" by (rule take_is_prefix)
    ultimately show ?thesis using assms(2) by blast
  qed
qed


lemma mkdir_parents_existing:
  assumes "\<forall>q. prefix q d \<longrightarrow> f q = Some Dir"
  shows "mkdir_parents f d = (None, f)"
proof -
  have "walk f [] d = None"
    using assms by (simp add: walk_None_prefix strict_prefix_def)
  moreover have "f d = Some Dir" using assms by simp
  ultimately have "os_mkdir f d = Inl (FileExistsError (render d))"
    by (simp add: os_mkdir_def)
  then show ?thesis
    using \<open>f d = Some Dir\<close> by (subst mkdir_parents.simps) simp
qed

lemma mkdir_step:
  assumes w: "walk f [] d = None" and d: "f d = None \<or> f d = Some Dir"
  shows "\<exists>f'. mkdir_parents f d = (None, f') \<and> mkdir_plain f d = (None, f') \<and>
              f' d = Some Dir \<and> (\<forall>q. q \<noteq> d \<longrightarrow> f' q = f q)"
proof (cases "f d")
  case None
  with w have os: "os_mkdir f d = Inr (f(d \<mapsto> Dir))" by (simp add: os_mkdir_def)
  have "mkdir_parents f d = (None, f(d \<mapsto> Dir))"
    using os by (subst mkdir_parents.simps) simp
  moreover have "mkdir_plain f d = (None, f(d \<mapsto> Dir))"
    using os by (simp add: mkdir_plain_def)
  ultimately show ?thesis by simp
next
  case (Some n)
  with d have fd: "f d = Some Dir" by simp
  with w have os: "os_mkdir f d = Inl (FileExistsError (render d))" by (simp add: os_mkdir_def)
  have "mkdir_parents f d = (None, f)"
    using os fd by (subst mkdir_parents.simps) simp
  moreover have "mkdir_plain f d = (None, f)"
    using os fd by (simp add: mkdir_plain_def)
  ultimately show ?thesis using fd by simp
qed

lemma mkdir_parents_creates:
  "(\<forall>q. prefix q d \<longrightarrow> f q = None \<or> f q = Some Dir) \<Longrightarrow>
   \<exists>f'. mkdir_parents f d = (None, f') \<and> (\<forall>q. prefix q d \<longrightarrow> f' q = Some Dir) \<and>
        (\<forall>q. \<not> prefix q d \<longrightarrow> f' q = f q)"
proof (induction d rule: rev_induct)
  case Nil
  have "walk f [] [] = None" by simp
  moreover from Nil have "f [] = None \<or> f [] = Some Dir" by simp
  ultimately obtain f' where "mkdir_parents f [] = (None, f')" "f' [] = Some Dir"
      "\<forall>q. q \<noteq> [] \<longrightarrow> f' q = f q"
    using mkdir_step by blast
  then show ?case by auto
next
  case (snoc x xs)
  let ?d = "xs @ [x]"
  have nofile: "\<forall>q. prefix q ?d \<longrightarrow> (\<forall>c. f q \<noteq> Some (File c))"
    using snoc.prems by fastforce
  have fd: "f ?d = None \<or> f ?d = Some Dir" using snoc.prems by simp
  show ?case
  proof (cases "walk f [] ?d")
    case None
    from mkdir_step [OF None fd] obtain f' where f': "mkdir_parents f ?d = (None, f')"
        "f' ?d = Some Dir" "\<forall>q. q \<noteq> ?d \<longrightarrow> f' q = f q" by blast
    have "\<forall>q. prefix q ?d \<longrightarrow> f' q = Some Dir"
    proof (intro allI impI)
      fix q assume "prefix q ?d"
      then have "q = ?d \<or> strict_prefix q ?d" by (auto simp: strict_prefix_def)
      then show "f' q = Some Dir"
        using f' None by (auto simp: walk_None_prefix)
    qed
    moreover have "\<forall>q. \<not> prefix q ?d \<longrightarrow> f' q = f q" using f'(3) by auto
    ultimately show ?thesis using f'(1) by blast
  next
    case (Some err)
    then have fnf: "is_FileNotFoundError err" using nofile by (rule walk_Some_prefix)
    have os: "os_mkdir f ?d = Inl err" using Some by (simp add: os_mkdir_def)
    have "\<forall>q. prefix q xs \<longrightarrow> f q = None \<or> f q = Some Dir"
      using snoc.prems by simp
    from snoc.IH [OF this] obtain f1 where f1: "mkdir_parents f xs = (None, f1)"
        "\<forall>q. prefix q xs \<longrightarrow> f1 q = Some Dir" "\<forall>q. \<not> prefix q xs \<longrightarrow> f1 q = f q" by blast
    have w1: "walk f1 [] ?d = None"
      using f1(2) by (auto simp: walk_None_prefix strict_prefix_def)
    have np: "\<not> prefix ?d xs" by (auto simp: prefix_def)
    then have fd1: "f1 ?d = None \<or> f1 ?d = Some Dir" using f1(3) fd by simp
    from mkdir_step [OF w1 fd1] obtain f' where f': "mkdir_plain f1 ?d = (None, f')"
        "f' ?d = Some Dir" "\<forall>q. q \<noteq> ?d \<longrightarrow> f' q = f1 q" by blast
    have run: "mkdir_parents f ?d = (None, f')"
      using os fnf f1(1) f'(1) by (subst mkdir_parents.simps) simp
    have "\<forall>q. prefix q ?d \<longrightarrow> f' q = Some Dir"
    proof (intro allI impI)
      fix q assume "prefix q ?d"
      then consider "q = ?d" | "prefix q xs" by auto
      then show "f' q = Some Dir"
      proof cases
        case 1
        then show ?thesis using f'(2) by simp
      next
        case 2
        then have "q \<noteq> ?d" using np by blast
        then show ?thesis using 2 f'(3) f1(2) by simp
      qed
    qed
    moreover have "\<forall>q. \<not> prefix q ?d \<longrightarrow> f' q = f q"
      using f'(3) f1(3) by auto
    ultimately show ?thesis using run by blast
  qed
qed


lemma parents_are_dirs_iff:
  "parents_are_dirs f p \<longleftrightarrow> (\<forall>q. prefix q (butlast p) \<longrightarrow> f q = Some Dir)"
  by (auto simp: parents_are_dirs_def list_all_iff)

lemma no_file_above_iff:
  "no_file_above f p \<longleftrightarrow> (\<forall>q. prefix q (butlast p) \<longrightarrow> f q = None \<or> f q = Some Dir)"
  by (auto simp: no_file_above_def list_all_iff)

text \<open>
  C9. When the root directory exists, the executable is found, the destination is an
  existing regular file (so that, as in every file system, its ancestors are
  directories) and the overwrite flag is not set, the run fails with the
  \<open>FileExistsError\<close> of the conflict and leaves the world as it was: the destination keeps
  its contents, nothing is deleted or truncated, and no child process is run.
\<close>

theorem dump_conflict_keeps_output:
  assumes root: "is_dir (fs w) root_dir"
    and tool: "which e exiftool_cmd \<noteq> None"
    and dest: "fs w (location output_csv) = Some (File contents)"
    and dirs: "parents_are_dirs (fs w) (location output_csv)"
    and force: "\<not> force"
  shows "run_exiftool_metadata_dump e root_dir output_csv extensions request_all
           largefile_support recursive exiftool_cmd force w =
         (Inl (FileExistsError (''Output file already exists: '' @ render (location output_csv) @
                                ''. Use --force to overwrite.'')), w)"
proof -
  have "mkdir_parents (fs w) (butlast (location output_csv)) = (None, fs w)"
    using dirs by (intro mkdir_parents_existing) (simp add: parents_are_dirs_iff)
  then show ?thesis
    using root tool dest force
    by (auto simp: run_exiftool_metadata_dump_def resolve_def parent_def exists_def Let_def)
qed

theorem dump_conflict_keeps_output_witness:
  "is_dir [[] \<mapsto> Dir, [''out.csv''] \<mapsto> File ''old''] \<lparr>as_str = ''.'', location = []\<rparr> \<and>
   [''exiftool'' \<mapsto> ''/usr/bin/exiftool''] ''exiftool'' \<noteq> None \<and>
   parents_are_dirs [[] \<mapsto> Dir, [''out.csv''] \<mapsto> File ''old''] [''out.csv''] \<and>
   run_exiftool_metadata_dump
       \<lparr>which = [''exiftool'' \<mapsto> ''/usr/bin/exiftool''], child = silent_child\<rparr>
       \<lparr>as_str = ''.'', location = []\<rparr> \<lparr>as_str = ''out.csv'', location = [''out.csv'']\<rparr>
       [''pdf''] 3 True True ''exiftool'' False
       \<lparr>fs = [[] \<mapsto> Dir, [''out.csv''] \<mapsto> File ''old''], printed = [], spawned = []\<rparr> =
     (Inl (FileExistsError ''Output file already exists: /out.csv. Use --force to overwrite.''),
      \<lparr>fs = [[] \<mapsto> Dir, [''out.csv''] \<mapsto> File ''old''], printed = [], spawned = []\<rparr>)"
proof -
  let ?f = "[[] \<mapsto> Dir, [''out.csv''] \<mapsto> File ''old'']"
  let ?w = "\<lparr>fs = ?f, printed = [], spawned = []\<rparr>"
  let ?e = "\<lparr>which = [''exiftool'' \<mapsto> ''/usr/bin/exiftool''], child = silent_child\<rparr>"
  have h1: "is_dir (fs ?w) \<lparr>as_str = ''.'', location = []\<rparr>" by (simp add: is_dir_def)
  have h2: "which ?e ''exiftool'' \<noteq> None" by simp
  have h3: "fs ?w (location \<lparr>as_str = ''out.csv'', location = [''out.csv'']\<rparr>) = Some (File ''old'')"
    by simp
  have h4: "parents_are_dirs (fs ?w) (location \<lparr>as_str = ''out.csv'', location = [''out.csv'']\<rparr>)"
    by (simp add: parents_are_dirs_def)
  have h5: "\<not> False" by simp
  show ?thesis
    using h1 h2 h4 dump_conflict_keeps_output [OF h1 h2 h3 h4 h5, of "[''pdf'']" 3 True True]
    by simp
qed

lemma mkdir_parents_for_output:
  assumes "no_file_above f p"
  shows "\<exists>f'. mkdir_parents f (butlast p) = (None, f') \<and> parents_are_dirs f' p \<and>
              (f p \<noteq> None \<longrightarrow> f' p \<noteq> None)"
proof -
  from assms have "\<forall>q. prefix q (butlast p) \<longrightarrow> f q = None \<or> f q = Some Dir"
    by (simp add: no_file_above_iff)
  from mkdir_parents_creates [OF this] obtain f' where f':
      "mkdir_parents f (butlast p) = (None, f')"
      "\<forall>q. prefix q (butlast p) \<longrightarrow> f' q = Some Dir"
      "\<forall>q. \<not> prefix q (butlast p) \<longrightarrow> f' q = f q" by blast
  have "f p \<noteq> None \<longrightarrow> f' p \<noteq> None"
  proof (cases "prefix p (butlast p)")
    case True
    then show ?thesis using f'(2) by simp
  next
    case False
    then show ?thesis using f'(3) by simp
  qed
  then show ?thesis using f'(1,2) by (auto simp: parents_are_dirs_iff)
qed

text \<open>
  C10, as amended. The parent directories of the destination are made first, then the
  executable is looked up, then the destination is checked. When the root directory
  exists and no ancestor of the destination is a regular file (so that the directories
  can be made): a run whose executable is not found fails with the tool-missing
  \<open>FileNotFoundError\<close>, whether or not the destination exists and whatever the overwrite
  flag; a run whose executable is found, whose destination exists and whose overwrite
  flag is unset fails with the conflict; and after either failure the destination's
  parent and all its ancestors are directories.
\<close>

theorem dump_checks_in_order:
  assumes root: "is_dir (fs w) root_dir"
    and free: "no_file_above (fs w) (location output_csv)"
  shows "(which e exiftool_cmd = None \<longrightarrow>
            fst (run_exiftool_metadata_dump e root_dir output_csv extensions request_all
                   largefile_support recursive exiftool_cmd force w) =
              Inl (FileNotFoundError (''ExifTool executable '' @ [CHR 0x27] @ exiftool_cmd @
                     [CHR 0x27] @ '' could not be found on PATH.''))) \<and>
         (which e exiftool_cmd \<noteq> None \<and> fs w (location output_csv) \<noteq> None \<and> \<not> force \<longrightarrow>
            fst (run_exiftool_metadata_dump e root_dir output_csv extensions request_all
                   largefile_support recursive exiftool_cmd force w) =
              Inl (FileExistsError (''Output file already exists: '' @
                     render (location output_csv) @ ''. Use --force to overwrite.''))) \<and>
         (which e exiftool_cmd = None \<or> (fs w (location output_csv) \<noteq> None \<and> \<not> force) \<longrightarrow>
            parents_are_dirs
              (fs (snd (run_exiftool_metadata_dump e root_dir output_csv extensions request_all
                          largefile_support recursive exiftool_cmd force w)))
              (location output_csv))"
proof -
  from mkdir_parents_for_output [OF free] obtain f' where f':
      "mkdir_parents (fs w) (butlast (location output_csv)) = (None, f')"
      "parents_are_dirs f' (location output_csv)"
      "fs w (location output_csv) \<noteq> None \<longrightarrow> f' (location output_csv) \<noteq> None" by blast
  show ?thesis
    using root f'
    by (auto simp: run_exiftool_metadata_dump_def resolve_def parent_def exists_def Let_def)
qed

theorem dump_checks_in_order_witness:
  "is_dir [[] \<mapsto> Dir] \<lparr>as_str = ''.'', location = []\<rparr> \<and>
   no_file_above [[] \<mapsto> Dir] [''reports'', ''out.csv''] \<and>
   fst (run_exiftool_metadata_dump \<lparr>which = Map.empty, child = silent_child\<rparr>
          \<lparr>as_str = ''.'', location = []\<rparr>
          \<lparr>as_str = ''reports/out.csv'', location = [''reports'', ''out.csv'']\<rparr>
          [''pdf''] 3 True True ''exiftool'' False
          \<lparr>fs = [[] \<mapsto> Dir], printed = [], spawned = []\<rparr>) =
     Inl (FileNotFoundError (''ExifTool executable '' @ [CHR 0x27] @ ''exiftool'' @ [CHR 0x27] @
            '' could not be found on PATH.'')) \<and>
   parents_are_dirs
     (fs (snd (run_exiftool_metadata_dump \<lparr>which = Map.empty, child = silent_child\<rparr>
          \<lparr>as_str = ''.'', location = []\<rparr>
          \<lparr>as_str = ''reports/out.csv'', location = [''reports'', ''out.csv'']\<rparr>
          [''pdf''] 3 True True ''exiftool'' False
          \<lparr>fs = [[] \<mapsto> Dir], printed = [], spawned = []\<rparr>)))
     [''reports'', ''out.csv'']"
proof -
  let ?w = "\<lparr>fs = [[] \<mapsto> Dir], printed = [], spawned = []\<rparr>"
  let ?out = "\<lparr>as_str = ''reports/out.csv'', location = [''reports'', ''out.csv'']\<rparr>"
  let ?root = "\<lparr>as_str = ''.'', location = []\<rparr>"
  have h1: "is_dir (fs ?w) ?root" by (simp add: is_dir_def)
  have h2: "no_file_above (fs ?w) (location ?out)" by (simp add: no_file_above_def)
  show ?thesis
    using h1 h2 dump_checks_in_order [OF h1 h2, of "\<lparr>which = Map.empty, child = silent_child\<rparr>"
        "''exiftool''" "[''pdf'']" 3 True True False]
    by simp
qed

text \<open>
  C10 as stated fails: with the root directory present and the executable not found, a
  destination \<open>/a/out.csv\<close> whose parent \<open>/a\<close> is a regular file makes the run fail in
  \<open>mkdir\<close>, with the \<open>FileExistsError\<close> of \<open>/a\<close>, before the executable is looked up; the
  parent directory is not created.
\<close>

theorem dump_parent_is_a_file:
  "is_dir [[] \<mapsto> Dir, [''a''] \<mapsto> File ''x''] \<lparr>as_str = ''.'', location = []\<rparr> \<and>
   which \<lparr>which = Map.empty, child = silent_child\<rparr> ''exiftool'' = None \<and>
   run_exiftool_metadata_dump \<lparr>which = Map.empty, child = silent_child\<rparr>
       \<lparr>as_str = ''.'', location = []\<rparr>
       \<lparr>as_str = ''a/out.csv'', location = [''a'', ''out.csv'']\<rparr>
       [''pdf''] 3 True True ''exiftool'' False
       \<lparr>fs = [[] \<mapsto> Dir, [''a''] \<mapsto> File ''x''], printed = [], spawned = []\<rparr> =
     (Inl (FileExistsError ''/a''),
      \<lparr>fs = [[] \<mapsto> Dir, [''a''] \<mapsto> File ''x''], printed = [], spawned = []\<rparr>)"
  by (simp add: is_dir_def run_exiftool_metadata_dump_def resolve_def parent_def
        mkdir_parents.simps os_mkdir_def)

section \<open>Properties of the flattener\<close>

























text \<open>
  C5. A file whose top-level value is an object \<open>d\<close> and a file whose top-level value is
  the one-element array \<open>[d]\<close> load to the same result; for \<open>{"k": "v"}\<close> that is the table
  with one row and the column \<open>k\<close> holding \<open>v\<close>.
\<close>

theorem load_bare_object_as_singleton:
  "load_metadata_frame p (JObj d) = load_metadata_frame p (JArr [JObj d]) \<and>
   load_metadata_frame p (JObj [(''k'', JStr ''v'')]) =
     Inr \<lparr>index = [0], columns = [''k''], cells = [[Some (JStr ''v'')]]\<rparr> \<and>
   load_metadata_frame p (JArr [JObj [(''k'', JStr ''v'')]]) =
     Inr \<lparr>index = [0], columns = [''k''], cells = [[Some (JStr ''v'')]]\<rparr>"
  by (simp add: load_metadata_frame_def json_normalize_def DataFrame_def reindex_columns_def
      normalise_json_ordered_def dict_merge_def cell_at_def Let_def)

section \<open>Properties of the summarizer\<close>

lemma unique_keys_length:
  "unique_keys cs seen = Inr ks \<Longrightarrow> length ks \<le> length seen + length (filter notna cs)"
proof (induction cs seen arbitrary: ks rule: unique_keys.induct)
  case (1 seen)
  then show ?case by simp
next
  case (2 cs seen)
  then show ?case by simp
next
  case (3 v cs seen)
  show ?case
  proof (cases "notna (Some v)")
    case False
    with 3 show ?thesis by simp
  next
    case True
    with "3.prems" obtain k where k: "hash_key v = Inr k"
      and run: "unique_keys cs (if k \<in> set seen then seen else seen @ [k]) = Inr ks"
      by (auto split: sum.splits)
    from "3.IH"(1) [OF True k run]
    have "length ks \<le> length (if k \<in> set seen then seen else seen @ [k]) + length (filter notna cs)" .
    with True show ?thesis by (simp split: if_splits)
  qed
qed

lemma nunique_bounds:
  "nunique series = Inr u \<Longrightarrow> 0 \<le> u \<and> u \<le> int (length (filter notna series))"
  using unique_keys_length [of series "[]"]
  by (auto simp: nunique_def split: sum.splits)

lemma summary_loop_counts:
  "summary_loop fr cols acc = Inr rows \<Longrightarrow> list_all counts_ok acc \<Longrightarrow> list_all counts_ok rows"
proof (induction cols arbitrary: acc)
  case Nil
  then show ?case by simp
next
  case (Cons column rest)
  from Cons.prems(1) obtain u where u: "nunique (column_series fr column) = Inr u"
    and run: "summary_loop fr rest
       (acc @ [\<lparr>Tag = column,
                NonNullCount = Some (int (length (filter notna (column_series fr column)))),
                UniqueValues = Some u\<rparr>]) = Inr rows"
    by (auto simp: Let_def split: if_splits sum.splits)
  from nunique_bounds [OF u]
  have "counts_ok \<lparr>Tag = column,
                NonNullCount = Some (int (length (filter notna (column_series fr column)))),
                UniqueValues = Some u\<rparr>"
    by (simp add: counts_ok_def)
  with Cons.prems(2)
  have "list_all counts_ok (acc @ [\<lparr>Tag = column,
                NonNullCount = Some (int (length (filter notna (column_series fr column)))),
                UniqueValues = Some u\<rparr>])"
    by simp
  with Cons.IH [OF run] show ?case .
qed

lemma snd_reset_index: "map snd (reset_index t) = map snd t"
  unfolding reset_index_def by (rule map_snd_zip) simp

lemma set_reset_sorted:
  "snd ` set (reset_index (sort_values_Tag (zip [0..<length rows] rows))) = set rows"
proof -
  let ?z = "zip [0..<length rows] rows"
  have z: "map snd ?z = rows" by (rule map_snd_zip) simp
  have "snd ` set (reset_index (sort_values_Tag ?z)) = set (map snd (reset_index (sort_values_Tag ?z)))"
    by (simp only: set_map)
  also have "\<dots> = set (map snd (sort_values_Tag ?z))" by (simp only: snd_reset_index)
  also have "\<dots> = snd ` set (sort_values_Tag ?z)" by (simp only: set_map)
  also have "\<dots> = snd ` set ?z" by (simp add: sort_values_Tag_def)
  also have "\<dots> = set (map snd ?z)" by (simp only: set_map)
  also have "\<dots> = set rows" by (simp only: z)
  finally show ?thesis .
qed

lemma counts_ok_iff:
  "counts_ok r \<longleftrightarrow>
     (\<exists>n u. NonNullCount r = Some n \<and> UniqueValues r = Some u \<and> 0 \<le> u \<and> u \<le> n)"
  by (auto simp: counts_ok_def split: option.splits)

text \<open>
  C1. In every row of a summary that \<open>summarize_columns\<close> produces, \<open>NonNullCount\<close> and
  \<open>UniqueValues\<close> are integers, and \<open>0 \<le> UniqueValues \<le> NonNullCount\<close>.
\<close>

theorem summarize_columns_counts:
  assumes "summarize_columns fr = Inr summary"
  shows "\<forall>(i, r) \<in> set summary.
           \<exists>n u. NonNullCount r = Some n \<and> UniqueValues r = Some u \<and> 0 \<le> u \<and> u \<le> n"
proof -
  from assms obtain rows where rows: "summary_loop fr (columns fr) [] = Inr rows"
    and summary: "summary = reset_index (sort_values_Tag (zip [0..<length rows] rows))"
    by (auto simp: summarize_columns_def split: sum.splits if_splits)
  have ok: "list_all counts_ok rows" using summary_loop_counts [OF rows] by simp
  have "snd ` set summary = set rows" unfolding summary by (rule set_reset_sorted)
  then have "\<forall>(i, r) \<in> set summary. counts_ok r"
    using ok by (force simp: list_all_iff)
  then show ?thesis
    by (simp add: counts_ok_iff)
qed


theorem summarize_columns_counts_witness:
  "summarize_columns
     \<lparr>index = [0, 1, 2], columns = [''b'', ''a''],
      cells = [[Some (JInt 1), None], [Some (JBool True), Some JNull],
               [Some (JStr ''x''), Some (JFloat (FFin 1))]]\<rparr> =
     Inr [(0, \<lparr>Tag = ''a'', NonNullCount = Some 1, UniqueValues = Some 1\<rparr>),
          (1, \<lparr>Tag = ''b'', NonNullCount = Some 3, UniqueValues = Some 2\<rparr>)] \<and>
   (\<exists>n u. NonNullCount \<lparr>Tag = ''b'', NonNullCount = Some 3, UniqueValues = Some 2\<rparr> = Some n \<and>
          UniqueValues \<lparr>Tag = ''b'', NonNullCount = Some 3, UniqueValues = Some 2\<rparr> = Some u \<and>
          0 \<le> u \<and> u \<le> n)"
proof -
  let ?fr = "\<lparr>index = [0, 1, 2], columns = [''b'', ''a''],
      cells = [[Some (JInt 1), None], [Some (JBool True), Some JNull],
               [Some (JStr ''x''), Some (JFloat (FFin 1))]]\<rparr>"
  let ?rb = "\<lparr>Tag = ''b'', NonNullCount = Some 3, UniqueValues = Some 2\<rparr>"
  have e: "summarize_columns ?fr =
     Inr [(0, \<lparr>Tag = ''a'', NonNullCount = Some 1, UniqueValues = Some 1\<rparr>), (1, ?rb)]"
    by code_simp
  from summarize_columns_counts [OF e]
  have "\<exists>n u. NonNullCount ?rb = Some n \<and> UniqueValues ?rb = Some u \<and> 0 \<le> u \<and> u \<le> n"
    by simp
  with e show ?thesis by (intro conjI)
qed

section \<open>Properties of the differ\<close>

lemma find_None_Tag: "find (\<lambda>r. Tag r = k) rs = None \<longleftrightarrow> k \<notin> Tag ` set rs"
  by (auto simp: find_None_iff)

lemma filter_distinct_Tag:
  "distinct (map Tag rs) \<Longrightarrow>
   filter (\<lambda>r. Tag r = k) rs = (case find (\<lambda>r. Tag r = k) rs of None \<Rightarrow> [] | Some r \<Rightarrow> [r])"
proof (induction rs)
  case Nil
  then show ?case by simp
next
  case (Cons r rs)
  show ?case
  proof (cases "Tag r = k")
    case True
    with Cons.prems have "k \<notin> Tag ` set rs" by auto
    then have "filter (\<lambda>r. Tag r = k) rs = []" by (auto simp: filter_empty_conv)
    with True show ?thesis by simp
  next
    case False
    with Cons show ?thesis by simp
  qed
qed

lemma merge_key_single:
  assumes "distinct (map Tag ls)" and "distinct (map Tag rs)"
    and "k \<in> Tag ` set ls \<union> Tag ` set rs"
  shows "merge_key k (filter (\<lambda>l. Tag l = k) ls) (filter (\<lambda>r. Tag r = k) rs) =
         [outer_join_row ls rs k]"
proof -
  from assms(3) have "find (\<lambda>r. Tag r = k) ls \<noteq> None \<or> find (\<lambda>r. Tag r = k) rs \<noteq> None"
    by (auto simp: find_None_Tag)
  then show ?thesis
    unfolding filter_distinct_Tag [OF assms(1)] filter_distinct_Tag [OF assms(2)]
    by (auto simp: merge_key_def outer_join_row_def stat_def split: option.splits)
qed

lemma concat_singletons: "concat (map (\<lambda>k. [g k]) ks) = map g ks"
  by (induction ks) simp_all

lemma merge_outer_rows:
  assumes "distinct (map (Tag \<circ> snd) left)" and "distinct (map (Tag \<circ> snd) right)"
  shows "merge_outer left right =
     (let rows = map (outer_join_row (map snd left) (map snd right))
                   (sort (remdups (map Tag (map snd left) @ map Tag (map snd right))))
      in zip [0..<length rows] rows)"
proof -
  let ?ls = "map snd left" and ?rs = "map snd right"
  let ?keys = "sort (remdups (map Tag ?ls @ map Tag ?rs))"
  have dl: "distinct (map Tag ?ls)" and dr: "distinct (map Tag ?rs)"
    using assms by simp_all
  have "map (\<lambda>k. merge_key k (filter (\<lambda>l. Tag l = k) ?ls) (filter (\<lambda>r. Tag r = k) ?rs)) ?keys =
        map (\<lambda>k. [outer_join_row ?ls ?rs k]) ?keys"
  proof (rule map_cong [OF refl])
    fix k assume "k \<in> set ?keys"
    then have "k \<in> Tag ` set ?ls \<union> Tag ` set ?rs" by auto
    then show "merge_key k (filter (\<lambda>l. Tag l = k) ?ls) (filter (\<lambda>r. Tag r = k) ?rs) =
        [outer_join_row ?ls ?rs k]"
      by (rule merge_key_single [OF dl dr])
  qed
  then have "concat (map (\<lambda>k. merge_key k (filter (\<lambda>l. Tag l = k) ?ls)
                 (filter (\<lambda>r. Tag r = k) ?rs)) ?keys) = map (outer_join_row ?ls ?rs) ?keys"
    by (simp only: concat_singletons)
  then show ?thesis
    unfolding merge_outer_def Let_def by (simp only:)
qed

lemma filter_zip_snd:
  "length is = length rows \<Longrightarrow>
   map snd (filter (\<lambda>(i, r). P r) (zip is rows)) = filter P rows"
proof (induction rows arbitrary: "is")
  case Nil
  then show ?case by simp
next
  case (Cons r rows)
  then obtain i is' where "is = i # is'" by (cases "is") auto
  with Cons show ?case by simp
qed

lemma Tag_outer_join_row [simp]: "Tag (outer_join_row ls rs k) = k"
  by (simp add: outer_join_row_def)

lemma compare_summaries_diff:
  assumes "distinct (map (Tag \<circ> snd) new)" and "distinct (map (Tag \<circ> snd) existing)"
  shows "compare_summaries new existing = summary_diff new existing"
proof -
  let ?olds = "map snd existing" and ?news = "map snd new"
  let ?keys = "sort (remdups (map Tag ?olds @ map Tag ?news))"
  let ?rows = "map (outer_join_row ?olds ?news) ?keys"
  let ?mis = "filter (\<lambda>(i, r). differs r) (zip [0..<length ?rows] ?rows)"
  have merged: "merge_outer existing new = zip [0..<length ?rows] ?rows"
    using merge_outer_rows [OF assms(2) assms(1)] by (simp add: Let_def)
  have snd_mis: "map snd ?mis = filter differs ?rows"
    by (rule filter_zip_snd) simp
  have "map Tag ?rows = ?keys" by (simp add: comp_def)
  then have "sorted (map Tag ?rows)" by simp
  then have "sorted (map Tag (filter differs ?rows))" by (rule sorted_filter)
  moreover have "map (\<lambda>(i, r). Tag r) ?mis = map Tag (map snd ?mis)"
    by (simp add: case_prod_beta comp_def)
  ultimately have "sorted (map (\<lambda>(i, r). Tag r) ?mis)"
    by (simp only: snd_mis)
  then have sv: "sort_values_Tag ?mis = ?mis"
    unfolding sort_values_Tag_def by (rule sort_key_id_if_sorted)
  have len: "length ?mis = length (filter differs ?rows)"
    using arg_cong [OF snd_mis, of length] by (simp only: length_map)
  have "reset_index (sort_values_Tag ?mis) = zip [0..<length ?mis] (map snd ?mis)"
    by (simp only: sv reset_index_def)
  also have "\<dots> = zip [0..<length (filter differs ?rows)] (filter differs ?rows)"
    by (simp only: len snd_mis)
  finally show ?thesis
    unfolding compare_summaries_def summary_diff_def Let_def merged differs_def [abs_def] .
qed



lemma stat_present:
  "t \<in> Tag ` set rows \<Longrightarrow> \<exists>r \<in> set rows. Tag r = t \<and> stat f rows t = f r"
proof -
  assume "t \<in> Tag ` set rows"
  then have "find (\<lambda>r. Tag r = t) rows \<noteq> None" by (simp add: find_None_Tag)
  then obtain r where r: "find (\<lambda>r. Tag r = t) rows = Some r" by auto
  then have "r \<in> set rows \<and> Tag r = t"
    by (auto simp: find_Some_iff)
  with r show ?thesis by (auto simp: stat_def)
qed





text \<open>
  C4. A summary whose Tags are pairwise distinct and whose statistics are all present,
  compared with itself, gives the empty difference.
\<close>

theorem compare_summaries_self:
  assumes dt: "distinct (map (Tag \<circ> snd) summary)"
    and present: "list_all (\<lambda>(i, r). NonNullCount r \<noteq> None \<and> UniqueValues r \<noteq> None) summary"
  shows "compare_summaries summary summary = []"
proof -
  let ?rows = "map snd summary"
  let ?keys = "sort (remdups (map Tag ?rows @ map Tag ?rows))"
  have "\<forall>t \<in> set ?keys. \<not> differs (outer_join_row ?rows ?rows t)"
  proof
    fix t assume "t \<in> set ?keys"
    then have "t \<in> Tag ` set ?rows" by auto
    then have some: "\<And>f. \<exists>r \<in> set ?rows. stat f ?rows t = f r" using stat_present by blast
    from some [of NonNullCount] obtain r1 where r1: "r1 \<in> set ?rows" "stat NonNullCount ?rows t = NonNullCount r1" by blast
    from some [of UniqueValues] obtain r2 where r2: "r2 \<in> set ?rows" "stat UniqueValues ?rows t = UniqueValues r2" by blast
    from r1(1) r2(1) present have "NonNullCount r1 \<noteq> None" "UniqueValues r2 \<noteq> None"
      by (auto simp: list_all_iff)
    then show "\<not> differs (outer_join_row ?rows ?rows t)"
      using r1(2) r2(2) by (auto simp: differs_def outer_join_row_def)
  qed
  then have "filter differs (map (outer_join_row ?rows ?rows) ?keys) = []"
    by (simp add: filter_empty_conv)
  then have "summary_diff summary summary = []"
    by (simp add: summary_diff_def Let_def)
  then show ?thesis using compare_summaries_diff [OF dt dt] by simp
qed

theorem compare_summaries_self_witness:
  "distinct (map (Tag \<circ> snd) [(0::nat, \<lparr>Tag = ''a.b'', NonNullCount = Some 2, UniqueValues = Some 1\<rparr>),
                              (1, \<lparr>Tag = ''c'', NonNullCount = Some 0, UniqueValues = Some 0\<rparr>)]) \<and>
   compare_summaries [(0, \<lparr>Tag = ''a.b'', NonNullCount = Some 2, UniqueValues = Some 1\<rparr>),
                      (1, \<lparr>Tag = ''c'', NonNullCount = Some 0, UniqueValues = Some 0\<rparr>)]
                     [(0, \<lparr>Tag = ''a.b'', NonNullCount = Some 2, UniqueValues = Some 1\<rparr>),
                      (1, \<lparr>Tag = ''c'', NonNullCount = Some 0, UniqueValues = Some 0\<rparr>)] = []"
proof -
  let ?s = "[(0::nat, \<lparr>Tag = ''a.b'', NonNullCount = Some 2, UniqueValues = Some 1\<rparr>),
             (1, \<lparr>Tag = ''c'', NonNullCount = Some 0, UniqueValues = Some 0\<rparr>)]"
  have h1: "distinct (map (Tag \<circ> snd) ?s)" by simp
  have h2: "list_all (\<lambda>(i, r). NonNullCount r \<noteq> None \<and> UniqueValues r \<noteq> None) ?s" by simp
  from compare_summaries_self [OF h1 h2] h1 show ?thesis by (intro conjI)
qed

end
